theory Spec2Isabelle
  imports Complex_Main "HOL-Library.Word"
begin

section \<open>Strings of the source language\<close>

text \<open>
  The views are TypeScript. A string is a sequence of UTF-16 code units; \<open>length\<close>
  counts code units. Pixel widths and the reference count are values of the type
  \<open>number\<close>; they are modelled as reals (no NaN, no infinities, exact arithmetic).
\<close>

type_synonym code_unit = "16 word"
type_synonym jsstring = "code_unit list"

definition is_lead_surrogate :: "code_unit \<Rightarrow> bool" where
  "is_lead_surrogate c = (0xD800 \<le> c \<and> c \<le> 0xDBFF)"

definition is_trail_surrogate :: "code_unit \<Rightarrow> bool" where
  "is_trail_surrogate c = (0xDC00 \<le> c \<and> c \<le> 0xDFFF)"

text \<open>
  \<^verbatim>\<open>for (const char of text)\<close> runs the string iterator: at each position it yields
  a lead surrogate together with the trail surrogate that follows it as one string of
  two code units, and every other code unit (a lone surrogate too) as a string of one.
\<close>

fun code_points :: "jsstring \<Rightarrow> jsstring list" where
  "code_points [] = []"
| "code_points [c] = [[c]]"
| "code_points (c # d # cs) =
     (if is_lead_surrogate c \<and> is_trail_surrogate d
      then [c, d] # code_points cs
      else [c] # code_points (d # cs))"

text \<open>
  The number that an iterated element denotes: the code unit itself, or, for a lead
  surrogate followed by a trail surrogate, ECMAScript's UTF16SurrogatePairToCodePoint.
  (The iterator yields no other element; on those the value is of no interest.)
\<close>

fun code_point_value :: "jsstring \<Rightarrow> nat" where
  "code_point_value [c] = unat c"
| "code_point_value [c, d] = 0x10000 + (unat c - 0xD800) * 0x400 + (unat d - 0xDC00)"
| "code_point_value cs = 0"

text \<open>\<^verbatim>\<open>'\n'\<close> is the code unit U+000A; \<^verbatim>\<open>text.split('\n')\<close> always yields at least one line.\<close>

fun split_newline :: "jsstring \<Rightarrow> jsstring list" where
  "split_newline [] = [[]]"
| "split_newline (c # cs) =
     (if c = 0x0A then [] # split_newline cs
      else (case split_newline cs of
              [] \<Rightarrow> [[c]]
            | l # ls \<Rightarrow> (c # l) # ls))"

datatype js_error = RangeError

text \<open>
  \<^verbatim>\<open>String.prototype.repeat(count)\<close>: the count is truncated towards zero; a negative
  result throws RangeError, and so does a result longer than the longest string the
  engine allows. That length differs between engines; it is the parameter \<open>limit\<close>.
\<close>

definition repeat :: "nat \<Rightarrow> jsstring \<Rightarrow> real \<Rightarrow> js_error + jsstring" where
  "repeat limit s count =
     (let n = (if count < 0 then \<lceil>count\<rceil> else \<lfloor>count\<rfloor>)
      in if n < 0 then Inl RangeError
         else if limit < nat n * length s then Inl RangeError
         else Inr (concat (replicate (nat n) s)))"

section \<open>Character classifier (multi-field view)\<close>

text \<open>
  \<^verbatim>\<open>/[\u3040-\u309F\u30A0-\u30FF\u4E00-\u9FFF]/.test(char)\<close>: the pattern has no
  \<^verbatim>\<open>u\<close> flag and no anchors, so it matches when some code unit of \<open>char\<close> lies in
  one of the three ranges.
\<close>

definition in_class :: "code_unit \<Rightarrow> bool" where
  "in_class c = ((0x3040 \<le> c \<and> c \<le> 0x309F) \<or> (0x30A0 \<le> c \<and> c \<le> 0x30FF)
                 \<or> (0x4E00 \<le> c \<and> c \<le> 0x9FFF))"

definition regex_test :: "jsstring \<Rightarrow> bool" where
  "regex_test char = list_ex in_class char"

record char_counts =
  fullWidth :: nat
  halfWidth :: nat

fun count_loop :: "jsstring list \<Rightarrow> char_counts \<Rightarrow> char_counts" where
  "count_loop [] acc = acc"
| "count_loop (char # rest) acc =
     (if regex_test char
      then count_loop rest (acc\<lparr>fullWidth := fullWidth acc + 1\<rparr>)
      else count_loop rest (acc\<lparr>halfWidth := halfWidth acc + 1\<rparr>))"

definition countCharacters :: "jsstring \<Rightarrow> char_counts" where
  "countCharacters text = count_loop (code_points text) \<lparr>fullWidth = 0, halfWidth = 0\<rparr>"

text \<open>The three ranges, as sets of code point numbers.\<close>

definition full_width_code_point :: "nat \<Rightarrow> bool" where
  "full_width_code_point n = ((0x3040 \<le> n \<and> n \<le> 0x309F) \<or> (0x30A0 \<le> n \<and> n \<le> 0x30FF)
                               \<or> (0x4E00 \<le> n \<and> n \<le> 0x9FFF))"

definition is_ascii :: "code_unit \<Rightarrow> bool" where
  "is_ascii c = (c \<le> 0x7F)"

section \<open>The host\<close>

text \<open>
  A measurement span is an off-screen element; all the views use of it is its
  \<^verbatim>\<open>textContent\<close> and the width of its box. A template ref holds the element once
  the view is mounted and \<^verbatim>\<open>null\<close> before (\<open>None\<close>). \<open>dom_log\<close> records, in order,
  every operation a view performs on a span and every \<^verbatim>\<open>console.error\<close>.

  The browser the views run in is the parameter \<open>host\<close> of every operation: its layout
  engine (\<open>layout\<close>, the width of the box of a span with the given content, in the font
  that is in effect) and the length of the longest string its JavaScript engine allows
  (\<open>string_limit\<close>).
\<close>

record element =
  textContent :: jsstring

datatype span = ReferenceSpan | InputSpan | FieldSpan nat

datatype dom_event = SetTextContent span jsstring | GetWidth span | ConsoleError

fun touches :: "span \<Rightarrow> dom_event \<Rightarrow> bool" where
  "touches sp (SetTextContent sp' s) = (sp = sp')"
| "touches sp (GetWidth sp') = (sp = sp')"
| "touches sp ConsoleError = False"

type_synonym renderer = "jsstring \<Rightarrow> real"

record host =
  layout :: renderer
  string_limit :: nat

text \<open>
  The loop \<^verbatim>\<open>for (const line of lines)\<close> of both views: write the line into the span,
  read the width of its box, keep the larger of it and \<open>maxWidth\<close>.
\<close>

fun measure_lines ::
  "renderer \<Rightarrow> span \<Rightarrow> jsstring list \<Rightarrow> element \<times> real \<times> dom_event list
     \<Rightarrow> element \<times> real \<times> dom_event list" where
  "measure_lines render sp [] acc = acc"
| "measure_lines render sp (line # lines) (el, maxWidth, evs) =
     (let el' = el\<lparr>textContent := line\<rparr>;
          lineWidth = render (textContent el')
      in measure_lines render sp lines
           (el', if lineWidth > maxWidth then lineWidth else maxWidth,
            evs @ [SetTextContent sp line, GetWidth sp]))"

section \<open>State shared by the two views\<close>

text \<open>
  Both components declare \<^verbatim>\<open>referenceCharCount\<close>, \<^verbatim>\<open>referenceMeasurementRef\<close>,
  \<^verbatim>\<open>referenceWidth\<close>, \<^verbatim>\<open>fontLoaded\<close>, \<^verbatim>\<open>EM_TO_PX\<close>, \<^verbatim>\<open>referenceText\<close> and
  \<^verbatim>\<open>theoreticalReferenceWidth\<close> with the same text; they are modelled once, on the
  common part of the two state records.
\<close>

record view =
  referenceCharCount :: real
  referenceMeasurementRef :: "element option"
  referenceWidth :: real
  fontLoaded :: bool
  dom_log :: "dom_event list"

definition EM_TO_PX :: real where
  "EM_TO_PX = 16"

definition maxLength :: nat where
  "maxLength = 300"

text \<open>The computed \<^verbatim>\<open>referenceText\<close>: the hiragana letter A (U+3042), repeated
  \<^verbatim>\<open>referenceCharCount.value\<close> times.\<close>

definition referenceText :: "host \<Rightarrow> 'a view_scheme \<Rightarrow> js_error + jsstring" where
  "referenceText host st = repeat (string_limit host) [0x3042] (referenceCharCount st)"

definition theoreticalReferenceWidth :: "'a view_scheme \<Rightarrow> real" where
  "theoreticalReferenceWidth st = EM_TO_PX * referenceCharCount st"

text \<open>
  The first block of \<^verbatim>\<open>measureWidth\<close> in both views. The right-hand side
  \<^verbatim>\<open>referenceText.value\<close> is evaluated before the assignment, so a RangeError leaves
  the state as it was.
\<close>

definition measureReference :: "host \<Rightarrow> 'a view_scheme \<Rightarrow> js_error + 'a view_scheme" where
  "measureReference host st =
     (case referenceMeasurementRef st of
        None \<Rightarrow> Inr st
      | Some el \<Rightarrow>
          (case referenceText host st of
             Inl e \<Rightarrow> Inl e
           | Inr t \<Rightarrow>
               (let el' = el\<lparr>textContent := t\<rparr>
                in Inr (st\<lparr>referenceMeasurementRef := Some el',
                           referenceWidth := layout host (textContent el'),
                           dom_log := dom_log st @ [SetTextContent ReferenceSpan t,
                                                    GetWidth ReferenceSpan]\<rparr>))))"

text \<open>The clamp at the head of \<^verbatim>\<open>handleReferenceCharCountChange\<close> in both views.\<close>

definition clampReferenceCharCount :: "'a view_scheme \<Rightarrow> 'a view_scheme" where
  "clampReferenceCharCount st =
     (if referenceCharCount st < 1 then st\<lparr>referenceCharCount := 1\<rparr> else st)"

datatype font_outcome = FontReady | FontRejected

section \<open>Single-field view\<close>

record single_view = view +
  inputText :: jsstring
  measurementRef :: "element option"
  inputWidth :: real

text \<open>
  \<^verbatim>\<open>measureWidth\<close> is \<^verbatim>\<open>async\<close>: its body runs, in one piece, after
  \<^verbatim>\<open>await nextTick()\<close>. The model is that body; \<open>Inl\<close> is the rejection of its promise.
\<close>

definition measureWidth_single :: "host \<Rightarrow> single_view \<Rightarrow> js_error + single_view" where
  "measureWidth_single host st =
     (case measureReference host st of
        Inl e \<Rightarrow> Inl e
      | Inr st1 \<Rightarrow>
          (case measurementRef st1 of
             Some el \<Rightarrow>
               (if inputText st1 \<noteq> []
                then (case measure_lines (layout host) InputSpan (split_newline (inputText st1))
                             (el, 0, dom_log st1) of
                        (el', maxWidth, evs') \<Rightarrow>
                          Inr (st1\<lparr>measurementRef := Some el', inputWidth := maxWidth,
                                   dom_log := evs'\<rparr>))
                else Inr (st1\<lparr>inputWidth := 0\<rparr>))
           | None \<Rightarrow> Inr (st1\<lparr>inputWidth := 0\<rparr>)))"

text \<open>
  The handlers call \<^verbatim>\<open>measureWidth()\<close> and do not await it: a handler never throws, and
  a pass that rejects leaves the state as the handler left it. The rejections are
  collected beside the state.
\<close>

definition start_measureWidth_single ::
  "host \<Rightarrow> single_view \<Rightarrow> js_error list \<times> single_view" where
  "start_measureWidth_single host st =
     (case measureWidth_single host st of
        Inl e \<Rightarrow> ([e], st)
      | Inr st' \<Rightarrow> ([], st'))"

definition handleInput_single :: "host \<Rightarrow> single_view \<Rightarrow> js_error list \<times> single_view" where
  "handleInput_single host st = start_measureWidth_single host st"

definition handleReferenceCharCountChange_single ::
  "host \<Rightarrow> single_view \<Rightarrow> js_error list \<times> single_view" where
  "handleReferenceCharCountChange_single host st =
     start_measureWidth_single host (clampReferenceCharCount st)"

definition widthDifference :: "single_view \<Rightarrow> real" where
  "widthDifference st = inputWidth st - referenceWidth st"



text \<open>
  \<^verbatim>\<open>onMounted\<close>: the outcome of \<^verbatim>\<open>document.fonts.load\<close> selects the rest of the
  \<^verbatim>\<open>try\<close> block or the \<^verbatim>\<open>catch\<close> block. Either starts one pass; the result is
  that of the pass.
\<close>

definition onMounted_single ::
  "host \<Rightarrow> font_outcome \<Rightarrow> single_view \<Rightarrow> js_error + single_view" where
  "onMounted_single host outcome st =
     (case outcome of
        FontReady \<Rightarrow> measureWidth_single host (st\<lparr>fontLoaded := True\<rparr>)
      | FontRejected \<Rightarrow>
          measureWidth_single host
            (st\<lparr>dom_log := dom_log st @ [ConsoleError], fontLoaded := True\<rparr>))"

section \<open>Multi-field view\<close>

record TextAreaData =
  text' :: jsstring
  width :: real
  fullWidthCount :: nat
  halfWidthCount :: nat
  exceedsReference :: bool

record multi_view = view +
  textAreas :: "TextAreaData list"
  measurementRefs :: "element option list"

text \<open>Reading an array at an index that it does not have yields \<^verbatim>\<open>undefined\<close>.\<close>

definition at_index :: "'a list \<Rightarrow> int \<Rightarrow> 'a option" where
  "at_index xs i = (if 0 \<le> i \<and> i < int (length xs) then Some (xs ! nat i) else None)"

text \<open>\<^verbatim>\<open>measurementRefs.value[index]\<close>: \<^verbatim>\<open>undefined\<close> and \<^verbatim>\<open>null\<close> are both falsy.\<close>

definition measurementRef_at :: "multi_view \<Rightarrow> int \<Rightarrow> element option" where
  "measurementRef_at st index =
     (case at_index (measurementRefs st) index of None \<Rightarrow> None | Some r \<Rightarrow> r)"

definition measureWidth_multi :: "host \<Rightarrow> int \<Rightarrow> multi_view \<Rightarrow> js_error + multi_view" where
  "measureWidth_multi host index st =
     (case measureReference host st of
        Inl e \<Rightarrow> Inl e
      | Inr st1 \<Rightarrow>
          (case at_index (textAreas st1) index of
             None \<Rightarrow> Inr st1
           | Some textarea \<Rightarrow>
               (case (case measurementRef_at st1 index of
                        Some el \<Rightarrow>
                          (case measure_lines (layout host) (FieldSpan (nat index))
                                  (split_newline (text' textarea)) (el, 0, dom_log st1) of
                             (el', maxWidth, evs') \<Rightarrow>
                               ((measurementRefs st1)[nat index := Some el'], evs', maxWidth))
                      | None \<Rightarrow> (measurementRefs st1, dom_log st1, 0)) of
                  (refs', evs', w) \<Rightarrow>
                    (let counts = countCharacters (text' textarea);
                         textarea' = textarea\<lparr>width := w,
                                       fullWidthCount := fullWidth counts,
                                       halfWidthCount := halfWidth counts,
                                       exceedsReference := (w > theoreticalReferenceWidth st1)\<rparr>
                     in Inr (st1\<lparr>dom_log := evs',
                                 textAreas := (textAreas st1)[nat index := textarea'],
                                 measurementRefs := refs'\<rparr>)))))"

text \<open>
  \<^verbatim>\<open>textAreas.value.forEach((_, index) => { measureWidth(index) })\<close> starts one pass per
  index; each has its own promise, so a pass that rejects leaves the state to the next
  one. The rejections are collected beside the state.
\<close>

fun measure_each ::
  "host \<Rightarrow> int list \<Rightarrow> js_error list \<times> multi_view \<Rightarrow> js_error list \<times> multi_view" where
  "measure_each host [] acc = acc"
| "measure_each host (i # rest) (errs, st) =
     (case measureWidth_multi host i st of
        Inl e \<Rightarrow> measure_each host rest (errs @ [e], st)
      | Inr st' \<Rightarrow> measure_each host rest (errs, st'))"

definition measure_all :: "host \<Rightarrow> multi_view \<Rightarrow> js_error list \<times> multi_view" where
  "measure_all host st = measure_each host (map int [0..<length (textAreas st)]) ([], st)"

definition handleInput_multi ::
  "host \<Rightarrow> int \<Rightarrow> multi_view \<Rightarrow> js_error list \<times> multi_view" where
  "handleInput_multi host index st = measure_each host [index] ([], st)"

definition handleReferenceCharCountChange_multi ::
  "host \<Rightarrow> multi_view \<Rightarrow> js_error list \<times> multi_view" where
  "handleReferenceCharCountChange_multi host st =
     measure_all host (clampReferenceCharCount st)"

definition inputCharCount :: "multi_view \<Rightarrow> int \<Rightarrow> nat" where
  "inputCharCount st index =
     (case at_index (textAreas st) index of None \<Rightarrow> 0 | Some t \<Rightarrow> length (text' t))"

text \<open>
  \<^verbatim>\<open>onMounted\<close>: here the \<^verbatim>\<open>catch\<close> block reports the error and sets
  \<^verbatim>\<open>fontLoaded\<close>, and nothing else.
\<close>

definition onMounted_multi ::
  "host \<Rightarrow> font_outcome \<Rightarrow> multi_view \<Rightarrow> js_error list \<times> multi_view" where
  "onMounted_multi host outcome st =
     (case outcome of
        FontReady \<Rightarrow> measure_all host (st\<lparr>fontLoaded := True\<rparr>)
      | FontRejected \<Rightarrow> ([], st\<lparr>dom_log := dom_log st @ [ConsoleError], fontLoaded := True\<rparr>))"

section \<open>Initial states\<close>

definition aiueo :: jsstring where
  "aiueo = [0x3042, 0x3044, 0x3046, 0x3048, 0x304A]"

definition kakikukeko :: jsstring where
  "kakikukeko = [0x304B, 0x304D, 0x304F, 0x3051, 0x3053]"

definition digits :: jsstring where
  "digits = [0x31, 0x32, 0x33, 0x34, 0x35, 0x36, 0x37, 0x38, 0x39, 0x30]"

definition empty_span :: element where
  "empty_span = \<lparr>textContent = []\<rparr>"

text \<open>The state of each view when \<^verbatim>\<open>onMounted\<close> runs: the refs hold their (empty) spans.\<close>

definition mounted_single :: single_view where
  "mounted_single =
     \<lparr>referenceCharCount = 35, referenceMeasurementRef = Some empty_span,
      referenceWidth = 0, fontLoaded = False, dom_log = [],
      inputText = aiueo @ kakikukeko @ aiueo @ kakikukeko @ aiueo @ kakikukeko @ aiueo
                  @ [0x0A] @ digits @ digits @ digits @ digits @ digits @ digits,
      measurementRef = Some empty_span, inputWidth = 0\<rparr>"

definition new_field :: "jsstring \<Rightarrow> TextAreaData" where
  "new_field s = \<lparr>text' = s, width = 0, fullWidthCount = 0, halfWidthCount = 0,
                  exceedsReference = False\<rparr>"

definition mounted_multi :: multi_view where
  "mounted_multi =
     \<lparr>referenceCharCount = 35, referenceMeasurementRef = Some empty_span,
      referenceWidth = 0, fontLoaded = False, dom_log = [],
      textAreas =
        [new_field (aiueo @ kakikukeko @ digits),
         new_field (aiueo @ kakikukeko @ aiueo @ kakikukeko @ aiueo @ kakikukeko @ aiueo),
         new_field (aiueo @ kakikukeko @ digits @ aiueo @ kakikukeko @ digits @ [0x0A]
                    @ aiueo @ kakikukeko @ digits @ aiueo @ kakikukeko @ digits @ aiueo)],
      measurementRefs = [Some empty_span, Some empty_span, Some empty_span]\<rparr>"

text \<open>
  A host for the examples. Its layout engine gives 16 pixels to a code unit of the three
  Japanese ranges and 8 pixels to any other; its longest string has \<open>2^29 - 24\<close> code
  units (the limit of V8 on 64-bit platforms).
\<close>

definition sample_render :: renderer where
  "sample_render line = sum_list (map (\<lambda>c. if in_class c then 16 else 8) line)"

definition sample_host :: host where
  "sample_host = \<lparr>layout = sample_render, string_limit = 536870888\<rparr>"

section \<open>Notions used in the statements\<close>

text \<open>
  What one pass of the multi-field view stores in an existing field, given the width it
  measured.
\<close>

definition remeasured :: "multi_view \<Rightarrow> TextAreaData \<Rightarrow> real \<Rightarrow> TextAreaData" where
  "remeasured st t w =
     t\<lparr>width := w,
       fullWidthCount := fullWidth (countCharacters (text' t)),
       halfWidthCount := halfWidth (countCharacters (text' t)),
       exceedsReference := (w > EM_TO_PX * referenceCharCount st)\<rparr>"

text \<open>
  The reference count is not negative and the reference text of that many characters is
  within the host's string limit, so that \<open>referenceText\<close> does not throw.
\<close>

definition count_in_range :: "host \<Rightarrow> 'a view_scheme \<Rightarrow> bool" where
  "count_in_range host st =
     (0 \<le> referenceCharCount st \<and> referenceCharCount st \<le> real (string_limit host))"

text \<open>A field's flag agrees with the strict comparison against the theoretical width.\<close>

definition flag_agrees :: "multi_view \<Rightarrow> TextAreaData \<Rightarrow> bool" where
  "flag_agrees st t = (exceedsReference t = (width t > theoreticalReferenceWidth st))"

section \<open>States and layout engines of the examples\<close>

text \<open>
  A text of three lines, and a host whose layout engine renders them at 40, 120 and 75
  pixels.
\<close>

definition example_text :: jsstring where
  "example_text = [0x61, 0x0A, 0x62, 0x62, 0x62, 0x0A, 0x63, 0x63]"

definition example_render :: renderer where
  "example_render line =
     (if line = [0x61] then 40
      else if line = [0x62, 0x62, 0x62] then 120
      else if line = [0x63, 0x63] then 75
      else 0)"

definition example_host :: host where
  "example_host = \<lparr>layout = example_render, string_limit = 536870888\<rparr>"

text \<open>The multi-field view after the user has emptied the first field.\<close>

definition cleared_multi :: multi_view where
  "cleared_multi = mounted_multi\<lparr>textAreas := (textAreas mounted_multi)[0 := new_field []]\<rparr>"

definition example_single :: single_view where
  "example_single = mounted_single\<lparr>inputText := example_text\<rparr>"

definition example_multi :: multi_view where
  "example_multi = mounted_multi\<lparr>textAreas := [new_field example_text]\<rparr>"

text \<open>The single-field view after the user has emptied the input.\<close>

definition emptied_single :: single_view where
  "emptied_single = mounted_single\<lparr>inputText := []\<rparr>"

section \<open>Auxiliary facts\<close>

subsection \<open>Classifier\<close>

lemma count_loop_filter:
  "count_loop chs acc =
     acc\<lparr>fullWidth := fullWidth acc + length (filter regex_test chs),
         halfWidth := halfWidth acc + length (filter (\<lambda>ch. \<not> regex_test ch) chs)\<rparr>"
  by (induction chs arbitrary: acc) simp_all

lemma in_class_unat: "in_class c = full_width_code_point (unat c)"
  by (simp add: in_class_def full_width_code_point_def word_le_nat_alt)

lemma lead_not_in_class: "is_lead_surrogate c \<Longrightarrow> \<not> in_class c"
  by (auto simp: is_lead_surrogate_def in_class_def word_le_nat_alt)

lemma trail_not_in_class: "is_trail_surrogate c \<Longrightarrow> \<not> in_class c"
  by (auto simp: is_trail_surrogate_def in_class_def word_le_nat_alt)

lemma regex_test_code_point:
  "ch \<in> set (code_points text) \<Longrightarrow> regex_test ch = full_width_code_point (code_point_value ch)"
proof (induction "text" arbitrary: ch rule: code_points.induct)
  case 1
  then show ?case by simp
next
  case (2 c)
  then show ?case by (simp add: regex_test_def in_class_unat)
next
  case (3 c d cs)
  show ?case
  proof (cases "is_lead_surrogate c \<and> is_trail_surrogate d")
    case True
    with 3 have "ch = [c, d] \<or> ch \<in> set (code_points cs)" by simp
    then show ?thesis
    proof
      assume ch: "ch = [c, d]"
      from True have "\<not> regex_test ch"
        by (simp add: ch regex_test_def lead_not_in_class trail_not_in_class)
      moreover have "\<not> full_width_code_point (code_point_value ch)"
        by (simp add: ch full_width_code_point_def)
      ultimately show ?thesis by simp
    next
      assume "ch \<in> set (code_points cs)"
      with 3 True show ?thesis by simp
    qed
  next
    case False
    with 3 have "ch = [c] \<or> ch \<in> set (code_points (d # cs))" by auto
    then show ?thesis
    proof
      assume "ch = [c]"
      then show ?thesis by (simp add: regex_test_def in_class_unat)
    next
      assume "ch \<in> set (code_points (d # cs))"
      with 3 False show ?thesis by simp
    qed
  qed
qed

lemma code_points_no_lead:
  "list_all (\<lambda>c. \<not> is_lead_surrogate c) text \<Longrightarrow> code_points text = map (\<lambda>c. [c]) text"
  by (induction "text" rule: code_points.induct) simp_all

lemma in_class_not_lead: "in_class c \<Longrightarrow> \<not> is_lead_surrogate c"
  using lead_not_in_class by blast

lemma ascii_not_lead: "is_ascii c \<Longrightarrow> \<not> is_lead_surrogate c"
  by (auto simp: is_ascii_def is_lead_surrogate_def word_le_nat_alt)

lemma ascii_not_in_class: "is_ascii c \<Longrightarrow> \<not> in_class c"
  by (auto simp: is_ascii_def in_class_def word_le_nat_alt)

lemma length_code_points_le: "length (code_points text) \<le> length text"
  by (induction "text" rule: code_points.induct) auto

lemma classification_counts:
  "(\<forall>ch \<in> set (code_points s).
       regex_test ch = full_width_code_point (code_point_value ch))
   \<and> countCharacters s =
       \<lparr>fullWidth = length (filter (\<lambda>ch. full_width_code_point (code_point_value ch))
                                  (code_points s)),
        halfWidth = length (filter (\<lambda>ch. \<not> full_width_code_point (code_point_value ch))
                                  (code_points s))\<rparr>
   \<and> (list_all (\<lambda>c. full_width_code_point (unat c)) j
        \<longrightarrow> countCharacters j = \<lparr>fullWidth = length j, halfWidth = 0\<rparr>)
   \<and> (list_all is_ascii a
        \<longrightarrow> countCharacters a = \<lparr>fullWidth = 0, halfWidth = length a\<rparr>)
   \<and> countCharacters [] = \<lparr>fullWidth = 0, halfWidth = 0\<rparr>"
proof (intro conjI impI)
  show "\<forall>ch \<in> set (code_points s). regex_test ch = full_width_code_point (code_point_value ch)"
    by (simp add: regex_test_code_point)
next
  have "filter regex_test (code_points s)
          = filter (\<lambda>ch. full_width_code_point (code_point_value ch)) (code_points s)"
    by (rule filter_cong) (simp_all add: regex_test_code_point)
  moreover have "filter (\<lambda>ch. \<not> regex_test ch) (code_points s)
          = filter (\<lambda>ch. \<not> full_width_code_point (code_point_value ch)) (code_points s)"
    by (rule filter_cong) (simp_all add: regex_test_code_point)
  ultimately show "countCharacters s =
       \<lparr>fullWidth = length (filter (\<lambda>ch. full_width_code_point (code_point_value ch))
                                  (code_points s)),
        halfWidth = length (filter (\<lambda>ch. \<not> full_width_code_point (code_point_value ch))
                                  (code_points s))\<rparr>"
    by (simp add: countCharacters_def count_loop_filter)
next
  assume "list_all (\<lambda>c. full_width_code_point (unat c)) j"
  then have cls: "list_all in_class j" by (simp add: list_all_iff in_class_unat)
  then have "list_all (\<lambda>c. \<not> is_lead_surrogate c) j"
    by (auto simp: list_all_iff in_class_not_lead)
  then have cp: "code_points j = map (\<lambda>c. [c]) j" by (rule code_points_no_lead)
  have "filter regex_test (map (\<lambda>c. [c]) j) = map (\<lambda>c. [c]) j"
    using cls by (induction j) (simp_all add: regex_test_def)
  moreover have "filter (\<lambda>ch. \<not> regex_test ch) (map (\<lambda>c. [c]) j) = []"
    using cls by (induction j) (simp_all add: regex_test_def)
  ultimately show "countCharacters j = \<lparr>fullWidth = length j, halfWidth = 0\<rparr>"
    by (simp add: countCharacters_def count_loop_filter cp)
next
  assume asc: "list_all is_ascii a"
  then have "list_all (\<lambda>c. \<not> is_lead_surrogate c) a"
    by (auto simp: list_all_iff ascii_not_lead)
  then have cp: "code_points a = map (\<lambda>c. [c]) a" by (rule code_points_no_lead)
  have "filter regex_test (map (\<lambda>c. [c]) a) = []"
    using asc by (induction a) (simp_all add: regex_test_def ascii_not_in_class)
  moreover have "filter (\<lambda>ch. \<not> regex_test ch) (map (\<lambda>c. [c]) a) = map (\<lambda>c. [c]) a"
    using asc by (induction a) (simp_all add: regex_test_def ascii_not_in_class)
  ultimately show "countCharacters a = \<lparr>fullWidth = 0, halfWidth = length a\<rparr>"
    by (simp add: countCharacters_def count_loop_filter cp)
next
  show "countCharacters [] = \<lparr>fullWidth = 0, halfWidth = 0\<rparr>"
    by (simp add: countCharacters_def)
qed

lemma pair_is_one_code_point:
  assumes "is_lead_surrogate c" and "is_trail_surrogate d"
  shows "code_points (c # d # r) = [c, d] # code_points r"
    and "0x10000 \<le> code_point_value [c, d]"
    and "countCharacters (c # d # r)
           = (countCharacters r)\<lparr>halfWidth := halfWidth (countCharacters r) + 1\<rparr>"
proof -
  show cp: "code_points (c # d # r) = [c, d] # code_points r" using assms by simp
  show "0x10000 \<le> code_point_value [c, d]" by simp
  have "\<not> regex_test [c, d]"
    using assms by (simp add: regex_test_def lead_not_in_class trail_not_in_class)
  with assms show "countCharacters (c # d # r)
           = (countCharacters r)\<lparr>halfWidth := halfWidth (countCharacters r) + 1\<rparr>"
    by (simp add: countCharacters_def count_loop_filter)
qed

lemma unit_is_one_code_point:
  assumes "\<not> is_lead_surrogate u"
  shows "code_points (u # r) = [u] # code_points r"
  using assms by (cases r) simp_all

subsection \<open>Measurement loop and reference block\<close>

lemma split_newline_nonempty: "split_newline s \<noteq> []"
  by (induction s) (auto split: list.splits)

lemma measure_lines_fold:
  "fst (snd (measure_lines render sp lines (el, m, evs))) = fold max (map render lines) m"
  by (induction lines arbitrary: el m evs) (simp_all add: Let_def max_def)

lemma measure_lines_width:
  "fst (snd (measure_lines render sp lines (el, m, evs))) = Max (insert m (render ` set lines))"
proof -
  have "Max (set (m # map render lines)) = fold max (map render lines) m"
    by (rule Max.set_eq_fold)
  then show ?thesis by (simp add: measure_lines_fold)
qed

lemma measure_lines_log:
  "snd (snd (measure_lines render sp lines (el, m, evs)))
     = evs @ concat (map (\<lambda>l. [SetTextContent sp l, GetWidth sp]) lines)"
  by (induction lines arbitrary: el m evs) (simp_all add: Let_def)

lemma Max_insert_zero:
  assumes "lines \<noteq> []" and "\<forall>l \<in> set lines. 0 \<le> render l"
  shows "Max (insert (0::real) (render ` set lines)) = Max (render ` set lines)"
proof -
  from assms(1) obtain l where l: "l \<in> set lines" by (cases lines) auto
  have fin: "finite (render ` set lines)" and ne: "render ` set lines \<noteq> {}"
    using assms(1) by simp_all
  have "0 \<le> render l" using assms(2) l by simp
  also have "render l \<le> Max (render ` set lines)" using l fin by simp
  finally have "0 \<le> Max (render ` set lines)" .
  then show ?thesis using fin ne by (simp add: max_def)
qed

lemma repeat_in_range:
  assumes "0 \<le> c" and "c \<le> real limit"
  shows "repeat limit [x] c = Inr (replicate (nat \<lfloor>c\<rfloor>) x)"
proof -
  have "\<lfloor>c\<rfloor> \<le> \<lfloor>real limit\<rfloor>" using assms(2) by (rule floor_mono)
  then have "nat \<lfloor>c\<rfloor> \<le> limit" by simp
  moreover have "concat (replicate n [x]) = replicate n x" for n
    by (induction n) simp_all
  ultimately show ?thesis using assms(1) by (simp add: repeat_def)
qed

lemma repeat_beyond_limit:
  assumes "real limit + 1 \<le> c"
  shows "repeat limit [x] c = Inl RangeError"
proof -
  have "int limit + 1 \<le> \<lfloor>c\<rfloor>" using assms by (simp add: le_floor_iff)
  then have "limit < nat \<lfloor>c\<rfloor>" by linarith
  moreover have "0 \<le> c" using assms by linarith
  ultimately show ?thesis by (simp add: repeat_def)
qed

lemma measureReference_frame:
  assumes "measureReference host st = Inr st1"
  shows "\<exists>r w evs. st1 = st\<lparr>referenceMeasurementRef := r, referenceWidth := w,
                              dom_log := dom_log st @ evs\<rparr>
          \<and> filter (\<lambda>e. \<not> touches ReferenceSpan e) evs = []"
proof (cases "referenceMeasurementRef st")
  case None
  with assms have "st1 = st\<lparr>referenceMeasurementRef := None, referenceWidth := referenceWidth st,
                     dom_log := dom_log st @ []\<rparr>"
    by (simp add: measureReference_def)
  then show ?thesis by (metis filter.simps(1))
next
  case (Some el)
  with assms obtain t where "referenceText host st = Inr t"
    and "st1 = st\<lparr>referenceMeasurementRef := Some (el\<lparr>textContent := t\<rparr>),
                     referenceWidth := layout host t,
                     dom_log := dom_log st @ [SetTextContent ReferenceSpan t,
                                              GetWidth ReferenceSpan]\<rparr>"
    by (auto simp: measureReference_def Let_def split: sum.splits)
  moreover have "filter (\<lambda>e. \<not> touches ReferenceSpan e)
                   [SetTextContent ReferenceSpan t, GetWidth ReferenceSpan] = []"
    by simp
  ultimately show ?thesis by blast
qed

lemma measureReference_Inr:
  assumes "count_in_range host st"
  shows "\<exists>r w evs. measureReference host st
            = Inr (st\<lparr>referenceMeasurementRef := r, referenceWidth := w,
                       dom_log := dom_log st @ evs\<rparr>)
          \<and> filter (\<lambda>e. \<not> touches ReferenceSpan e) evs = []"
proof (cases "referenceMeasurementRef st")
  case None
  have "measureReference host st
          = Inr (st\<lparr>referenceMeasurementRef := None, referenceWidth := referenceWidth st,
                     dom_log := dom_log st @ []\<rparr>)"
    using None by (simp add: measureReference_def)
  then show ?thesis by (metis filter.simps(1))
next
  case (Some el)
  define t where "t = replicate (nat \<lfloor>referenceCharCount st\<rfloor>) (0x3042 :: code_unit)"
  have "repeat (string_limit host) [0x3042] (referenceCharCount st) = Inr t"
    using assms unfolding t_def count_in_range_def by (intro repeat_in_range) simp_all
  then have "measureReference host st
          = Inr (st\<lparr>referenceMeasurementRef := Some (el\<lparr>textContent := t\<rparr>),
                     referenceWidth := layout host t,
                     dom_log := dom_log st @ [SetTextContent ReferenceSpan t,
                                              GetWidth ReferenceSpan]\<rparr>)"
    using Some
    by (simp add: measureReference_def referenceText_def Let_def)
  moreover have "filter (\<lambda>e. \<not> touches ReferenceSpan e)
                   [SetTextContent ReferenceSpan t, GetWidth ReferenceSpan] = []"
    by simp
  ultimately show ?thesis by blast
qed

subsection \<open>One pass\<close>

lemma measureWidth_single_empty:
  assumes "inputText st = []" and "count_in_range host st"
  shows "\<exists>st' evs. measureWidth_single host st = Inr st' \<and> inputWidth st' = 0
           \<and> measurementRef st' = measurementRef st
           \<and> dom_log st' = dom_log st @ evs \<and> filter (touches InputSpan) evs = []"
proof -
  from measureReference_Inr [OF assms(2)]
  obtain r w evs where ref: "measureReference host st
            = Inr (st\<lparr>referenceMeasurementRef := r, referenceWidth := w,
                       dom_log := dom_log st @ evs\<rparr>)"
    and evs: "filter (\<lambda>e. \<not> touches ReferenceSpan e) evs = []"
    by blast
  have "filter (touches InputSpan) evs = []"
  proof -
    have "\<And>e. touches InputSpan e \<Longrightarrow> \<not> touches ReferenceSpan e"
      by (case_tac e) auto
    with evs show ?thesis by (auto simp: filter_empty_conv)
  qed
  with ref assms(1) show ?thesis
    by (auto simp: measureWidth_single_def split: option.splits)
qed

lemma measureWidth_single_lines:
  assumes "inputText st \<noteq> []" and "count_in_range host st" and "measurementRef st = Some el"
  shows "\<exists>st'. measureWidth_single host st = Inr st'
           \<and> inputWidth st' = Max (insert 0 (layout host ` set (split_newline (inputText st))))
           \<and> inputText st' = inputText st"
proof -
  from measureReference_Inr [OF assms(2)]
  obtain r w evs where ref: "measureReference host st
            = Inr (st\<lparr>referenceMeasurementRef := r, referenceWidth := w,
                       dom_log := dom_log st @ evs\<rparr>)"
    by blast
  obtain el' m evs' where ml: "measure_lines (layout host) InputSpan (split_newline (inputText st))
                (el, 0, dom_log st @ evs) = (el', m, evs')"
    by (metis prod_cases3)
  have "m = Max (insert 0 (layout host ` set (split_newline (inputText st))))"
    using measure_lines_width [of "layout host" InputSpan "split_newline (inputText st)" el 0 "dom_log st @ evs"]
    by (simp add: ml)
  with ref assms ml show ?thesis
    by (simp add: measureWidth_single_def)
qed

lemma measureWidth_multi_field:
  assumes "count_in_range host st" and "at_index (textAreas st) i = Some t"
  shows "\<exists>st' evs. measureWidth_multi host i st = Inr st'
           \<and> referenceCharCount st' = referenceCharCount st
           \<and> fontLoaded st' = fontLoaded st
           \<and> dom_log st' = dom_log st @ evs
           \<and> filter (touches (FieldSpan (nat i))) evs =
               (case measurementRef_at st i of
                  None \<Rightarrow> []
                | Some el \<Rightarrow> concat (map (\<lambda>l. [SetTextContent (FieldSpan (nat i)) l,
                                                  GetWidth (FieldSpan (nat i))])
                                         (split_newline (text' t))))
           \<and> textAreas st' = (textAreas st)[nat i := remeasured st t
                 (case measurementRef_at st i of
                    None \<Rightarrow> 0
                  | Some el \<Rightarrow> Max (insert 0 (layout host ` set (split_newline (text' t)))))]"
proof -
  from measureReference_Inr [OF assms(1)]
  obtain r w evs where ref: "measureReference host st
            = Inr (st\<lparr>referenceMeasurementRef := r, referenceWidth := w,
                       dom_log := dom_log st @ evs\<rparr>)"
    and evs: "filter (\<lambda>e. \<not> touches ReferenceSpan e) evs = []"
    by blast
  have noref: "filter (touches (FieldSpan (nat i))) evs = []"
  proof -
    have "\<And>e. touches (FieldSpan (nat i)) e \<Longrightarrow> \<not> touches ReferenceSpan e"
      by (case_tac e) auto
    with evs show ?thesis by (auto simp: filter_empty_conv)
  qed
  let ?st1 = "st\<lparr>referenceMeasurementRef := r, referenceWidth := w, dom_log := dom_log st @ evs\<rparr>"
  have mr: "measurementRef_at ?st1 i = measurementRef_at st i"
    by (simp add: measurementRef_at_def)
  show ?thesis
  proof (cases "measurementRef_at st i")
    case None
    with ref assms(2) mr noref show ?thesis
      by (simp add: measureWidth_multi_def remeasured_def theoreticalReferenceWidth_def Let_def)
  next
    case (Some el)
    obtain el' m evs' where ml: "measure_lines (layout host) (FieldSpan (nat i)) (split_newline (text' t))
                (el, 0, dom_log st @ evs) = (el', m, evs')"
      by (metis prod_cases3)
    have m: "m = Max (insert 0 (layout host ` set (split_newline (text' t))))"
      using measure_lines_width [of "layout host" "FieldSpan (nat i)" "split_newline (text' t)" el 0 "dom_log st @ evs"]
      by (simp add: ml)
    have e: "evs' = (dom_log st @ evs) @ concat (map (\<lambda>l. [SetTextContent (FieldSpan (nat i)) l,
                                                  GetWidth (FieldSpan (nat i))])
                                         (split_newline (text' t)))"
      using measure_lines_log [of "layout host" "FieldSpan (nat i)" "split_newline (text' t)" el 0 "dom_log st @ evs"]
      by (simp add: ml)
    have f: "filter (touches (FieldSpan (nat i))) (concat (map (\<lambda>l. [SetTextContent (FieldSpan (nat i)) l,
                                                  GetWidth (FieldSpan (nat i))]) ls))
             = concat (map (\<lambda>l. [SetTextContent (FieldSpan (nat i)) l,
                                                  GetWidth (FieldSpan (nat i))]) ls)" for ls
      by (induction ls) simp_all
    from ref assms(2) mr Some ml m e f noref show ?thesis
      by (simp add: measureWidth_multi_def remeasured_def theoreticalReferenceWidth_def Let_def)
  qed
qed

lemma measureWidth_multi_missing:
  assumes "at_index (textAreas st) i = None"
  shows "measureWidth_multi host i st = measureReference host st"
  using assms
  by (simp add: measureWidth_multi_def measureReference_def Let_def split: option.splits sum.splits)

subsection \<open>A pass for every field\<close>

lemma at_index_nat: "i < length xs \<Longrightarrow> at_index xs (int i) = Some (xs ! i)"
  by (simp add: at_index_def)

lemma at_index_Some: "at_index xs i = Some x \<Longrightarrow> 0 \<le> i \<and> nat i < length xs \<and> x = xs ! nat i"
  by (auto simp: at_index_def split: if_splits)

lemma flag_agrees_remeasured:
  "referenceCharCount st' = referenceCharCount st \<Longrightarrow> flag_agrees st' (remeasured st t w)"
  by (simp add: flag_agrees_def remeasured_def theoreticalReferenceWidth_def)

lemma flag_agrees_cong:
  "referenceCharCount st' = referenceCharCount st \<Longrightarrow> flag_agrees st' t = flag_agrees st t"
  by (simp add: flag_agrees_def theoreticalReferenceWidth_def)

lemma measure_each_upt:
  assumes "count_in_range host st" and "length (textAreas st) = n" and "k \<le> n"
    and "\<forall>j<k. flag_agrees st (textAreas st ! j)"
  shows "\<exists>st'. measure_each host (map int [k..<n]) (errs, st) = (errs, st')
           \<and> referenceCharCount st' = referenceCharCount st
           \<and> fontLoaded st' = fontLoaded st
           \<and> length (textAreas st') = n
           \<and> (\<forall>j<n. flag_agrees st' (textAreas st' ! j))"
  using assms
proof (induction "n - k" arbitrary: k st)
  case 0
  then have "k = n" by simp
  with 0 show ?case by simp
next
  case (Suc d)
  then have kn: "k < n" by simp
  with Suc.prems have "at_index (textAreas st) (int k) = Some (textAreas st ! k)"
    by (simp add: at_index_nat)
  from measureWidth_multi_field [OF Suc.prems(1) this]
  obtain st1 w where pass: "measureWidth_multi host (int k) st = Inr st1"
    and c1: "referenceCharCount st1 = referenceCharCount st"
    and f1: "fontLoaded st1 = fontLoaded st"
    and t1: "textAreas st1 = (textAreas st)[k := remeasured st (textAreas st ! k) w]"
    by auto
  have len1: "length (textAreas st1) = n" using t1 Suc.prems(2) by simp
  have inv1: "\<forall>j<Suc k. flag_agrees st1 (textAreas st1 ! j)"
  proof (intro allI impI)
    fix j assume "j < Suc k"
    show "flag_agrees st1 (textAreas st1 ! j)"
    proof (cases "j = k")
      case True
      have "flag_agrees st1 (remeasured st (textAreas st ! k) w)"
        by (rule flag_agrees_remeasured [OF c1])
      then show ?thesis using True t1 kn Suc.prems(2) by simp
    next
      case False
      with \<open>j < Suc k\<close> have "j < k" by simp
      with Suc.prems(4) have "flag_agrees st (textAreas st ! j)" by simp
      then have "flag_agrees st1 (textAreas st ! j)"
        by (simp add: flag_agrees_cong [OF c1])
      then show ?thesis using t1 False by simp
    qed
  qed
  have "d = n - Suc k" using Suc.hyps(2) by simp
  have c1': "count_in_range host st1" using c1 Suc.prems(1) by (simp add: count_in_range_def)
  have kn': "Suc k \<le> n" using kn by simp
  from Suc.hyps(1) [OF \<open>d = n - Suc k\<close> c1' len1 kn' inv1]
  obtain st' where rest: "measure_each host (map int [Suc k..<n]) (errs, st1) = (errs, st')"
    and c': "referenceCharCount st' = referenceCharCount st1"
    and f': "fontLoaded st' = fontLoaded st1"
    and l': "length (textAreas st') = n"
    and i': "\<forall>j<n. flag_agrees st' (textAreas st' ! j)"
    by blast
  have "measure_each host (map int [k..<n]) (errs, st) = (errs, st')"
    using kn pass rest by (simp add: upt_conv_Cons)
  with c' c1 f' f1 l' i' show ?case by simp
qed

lemma measure_all_flags:
  assumes "count_in_range host st"
  shows "\<exists>st'. measure_all host st = ([], st')
           \<and> referenceCharCount st' = referenceCharCount st
           \<and> fontLoaded st' = fontLoaded st
           \<and> length (textAreas st') = length (textAreas st)
           \<and> list_all (flag_agrees st') (textAreas st')"
proof -
  from measure_each_upt [OF assms refl, of 0 "[]"]
  obtain st' where "measure_each host (map int [0..<length (textAreas st)]) ([], st) = ([], st')"
    and "referenceCharCount st' = referenceCharCount st"
    and "fontLoaded st' = fontLoaded st"
    and "length (textAreas st') = length (textAreas st)"
    and "\<forall>j<length (textAreas st). flag_agrees st' (textAreas st' ! j)"
    by auto
  then show ?thesis
    by (auto simp: measure_all_def list_all_length)
qed

subsection \<open>Further facts about a pass\<close>

lemma at_index_update: "at_index xs i = Some x \<Longrightarrow> at_index (xs[nat i := y]) i = Some y"
  by (auto simp: at_index_def split: if_splits)

lemma width_remeasured: "width (remeasured st t w) = w"
  by (simp add: remeasured_def)

lemma list_all_update:
  "list_all P xs \<Longrightarrow> P y \<Longrightarrow> list_all P (xs[k := y])"
  using set_update_subset_insert [of xs k y] by (auto simp: list_all_iff)

lemma measureWidth_single_Inr:
  assumes "count_in_range host st"
  shows "\<exists>st'. measureWidth_single host st = Inr st'
           \<and> referenceCharCount st' = referenceCharCount st
           \<and> fontLoaded st' = fontLoaded st"
proof -
  from measureReference_Inr [OF assms]
  obtain r w evs where ref: "measureReference host st
            = Inr (st\<lparr>referenceMeasurementRef := r, referenceWidth := w,
                       dom_log := dom_log st @ evs\<rparr>)"
    by blast
  then show ?thesis
    by (auto simp: measureWidth_single_def split: option.splits prod.splits)
qed

subsection \<open>The reference count across passes, and passes that reject\<close>

lemma measureReference_count:
  assumes "measureReference host st = Inr st1"
  shows "referenceCharCount st1 = referenceCharCount st"
proof -
  from measureReference_frame [OF assms]
  obtain r w evs where "st1 = st\<lparr>referenceMeasurementRef := r, referenceWidth := w,
                                    dom_log := dom_log st @ evs\<rparr>"
    by blast
  then show ?thesis by simp
qed

lemma measureWidth_single_count:
  assumes "measureWidth_single host st = Inr st'"
  shows "referenceCharCount st' = referenceCharCount st"
proof -
  from assms obtain st1 where r: "measureReference host st = Inr st1"
    by (auto simp: measureWidth_single_def split: sum.splits)
  from assms r have "referenceCharCount st' = referenceCharCount st1"
    by (auto simp: measureWidth_single_def split: option.splits if_splits prod.splits)
  with measureReference_count [OF r] show ?thesis by simp
qed

lemma measureWidth_multi_count:
  assumes "measureWidth_multi host i st = Inr st'"
  shows "referenceCharCount st' = referenceCharCount st"
proof -
  from assms obtain st1 where r: "measureReference host st = Inr st1"
    by (auto simp: measureWidth_multi_def split: sum.splits)
  from assms r have "referenceCharCount st' = referenceCharCount st1"
    by (auto simp: measureWidth_multi_def Let_def split: option.splits prod.splits)
  with measureReference_count [OF r] show ?thesis by simp
qed

lemma measure_each_count:
  "\<exists>errs' st'. measure_each host idxs (errs, st) = (errs', st')
      \<and> referenceCharCount st' = referenceCharCount st"
proof (induction idxs arbitrary: errs st)
  case Nil
  then show ?case by simp
next
  case (Cons i idxs)
  show ?case
  proof (cases "measureWidth_multi host i st")
    case (Inl e)
    with Cons [of "errs @ [e]" st] show ?thesis by simp
  next
    case (Inr st1)
    from Cons [of errs st1] measureWidth_multi_count [OF Inr] Inr show ?thesis by simp
  qed
qed

lemma single_handler_effect:
  "\<exists>errs st'. handleReferenceCharCountChange_single host st = (errs, st')
      \<and> referenceCharCount st' = referenceCharCount (clampReferenceCharCount st)
      \<and> (count_in_range host (clampReferenceCharCount st) \<longrightarrow> errs = [])"
proof (cases "measureWidth_single host (clampReferenceCharCount st)")
  case (Inl e)
  have "\<not> count_in_range host (clampReferenceCharCount st)"
  proof
    assume "count_in_range host (clampReferenceCharCount st)"
    from measureWidth_single_Inr [OF this] Inl show False by simp
  qed
  with Inl show ?thesis
    by (simp add: handleReferenceCharCountChange_single_def start_measureWidth_single_def)
next
  case (Inr st')
  with measureWidth_single_count [OF Inr] show ?thesis
    by (simp add: handleReferenceCharCountChange_single_def start_measureWidth_single_def)
qed

lemma multi_handler_effect:
  "\<exists>errs st'. handleReferenceCharCountChange_multi host st = (errs, st')
      \<and> referenceCharCount st' = referenceCharCount (clampReferenceCharCount st)
      \<and> (count_in_range host (clampReferenceCharCount st) \<longrightarrow> errs = [])"
proof -
  from measure_each_count [of host "map int [0..<length (textAreas (clampReferenceCharCount st))]"
                              "[]" "clampReferenceCharCount st"]
  obtain errs st' where run: "measure_all host (clampReferenceCharCount st) = (errs, st')"
    and cnt: "referenceCharCount st' = referenceCharCount (clampReferenceCharCount st)"
    by (auto simp: measure_all_def)
  have "count_in_range host (clampReferenceCharCount st) \<longrightarrow> errs = []"
  proof
    assume "count_in_range host (clampReferenceCharCount st)"
    from measure_all_flags [OF this] run show "errs = []" by auto
  qed
  with run cnt show ?thesis by (simp add: handleReferenceCharCountChange_multi_def)
qed

lemma measureReference_beyond_limit:
  assumes "real (string_limit host) + 1 \<le> referenceCharCount st"
    and "referenceMeasurementRef st = Some el"
  shows "measureReference host st = Inl RangeError"
  using assms
  by (simp add: measureReference_def referenceText_def repeat_beyond_limit)

lemma measureWidth_single_beyond_limit:
  assumes "real (string_limit host) + 1 \<le> referenceCharCount st"
    and "referenceMeasurementRef st = Some el"
  shows "measureWidth_single host st = Inl RangeError"
  using measureReference_beyond_limit [OF assms] by (simp add: measureWidth_single_def)

lemma measureWidth_multi_beyond_limit:
  assumes "real (string_limit host) + 1 \<le> referenceCharCount st"
    and "referenceMeasurementRef st = Some el"
  shows "measureWidth_multi host i st = Inl RangeError"
  using measureReference_beyond_limit [OF assms] by (simp add: measureWidth_multi_def)

lemma single_handler_beyond_limit:
  assumes "real (string_limit host) + 1 \<le> referenceCharCount st"
    and "referenceMeasurementRef st = Some el"
  shows "handleReferenceCharCountChange_single host st = ([RangeError], st)"
proof -
  have "1 \<le> referenceCharCount st" using assms(1) by linarith
  then have "clampReferenceCharCount st = st" by (simp add: clampReferenceCharCount_def)
  with measureWidth_single_beyond_limit [OF assms] show ?thesis
    by (simp add: handleReferenceCharCountChange_single_def start_measureWidth_single_def)
qed

subsection \<open>The hosts and states of the examples\<close>

lemma sample_layout: "layout sample_host = sample_render"
  by (simp add: sample_host_def)

lemma example_layout: "layout example_host = example_render"
  by (simp add: example_host_def)

lemma in_range_mounted_single: "count_in_range sample_host mounted_single"
  by (simp add: count_in_range_def sample_host_def mounted_single_def)

lemma in_range_mounted_multi: "count_in_range sample_host mounted_multi"
  by (simp add: count_in_range_def sample_host_def mounted_multi_def)

lemma in_range_emptied_single: "count_in_range sample_host emptied_single"
  by (simp add: count_in_range_def sample_host_def emptied_single_def mounted_single_def)

lemma in_range_cleared_multi: "count_in_range sample_host cleared_multi"
  by (simp add: count_in_range_def sample_host_def cleared_multi_def mounted_multi_def)

lemma in_range_example_single: "count_in_range example_host example_single"
  by (simp add: count_in_range_def example_host_def example_single_def mounted_single_def)

lemma in_range_example_multi: "count_in_range example_host example_multi"
  by (simp add: count_in_range_def example_host_def example_multi_def mounted_multi_def)

lemma example_lines: "split_newline example_text = [[0x61], [0x62, 0x62, 0x62], [0x63, 0x63]]"
  by (simp add: example_text_def)

lemma events_of_empty_line:
  "concat (map (\<lambda>l. [SetTextContent sp l, GetWidth sp]) (split_newline []))
     = [SetTextContent sp [], GetWidth sp]"
  by simp

subsection \<open>The default states, evaluated\<close>

lemma second_field_lines:
  "split_newline (aiueo @ kakikukeko @ aiueo @ kakikukeko @ aiueo @ kakikukeko @ aiueo)
     = [aiueo @ kakikukeko @ aiueo @ kakikukeko @ aiueo @ kakikukeko @ aiueo]"
  by (simp add: aiueo_def kakikukeko_def)

lemma second_field_width:
  "sample_render (aiueo @ kakikukeko @ aiueo @ kakikukeko @ aiueo @ kakikukeko @ aiueo) = 560"
  by (simp add: aiueo_def kakikukeko_def sample_render_def in_class_def)

lemma second_field_equal_width:
  "\<exists>st' t'. measureWidth_multi sample_host 1 mounted_multi = Inr st'
      \<and> at_index (textAreas st') 1 = Some t'
      \<and> width t' = 560 \<and> theoreticalReferenceWidth st' = 560 \<and> \<not> exceedsReference t'"
proof -
  have h1: "count_in_range sample_host mounted_multi" by (rule in_range_mounted_multi)
  have h2: "at_index (textAreas mounted_multi) 1
        = Some (new_field (aiueo @ kakikukeko @ aiueo @ kakikukeko @ aiueo @ kakikukeko @ aiueo))"
    by (simp add: mounted_multi_def at_index_def)
  have h3: "measurementRef_at mounted_multi 1 = Some empty_span"
    by (simp add: mounted_multi_def measurementRef_at_def at_index_def)
  have c: "referenceCharCount mounted_multi = 35" by (simp add: mounted_multi_def)
  have tx: "text' (new_field s) = s" for s by (simp add: new_field_def)
  from measureWidth_multi_field [OF h1 h2]
  obtain st' where pass: "measureWidth_multi sample_host 1 mounted_multi = Inr st'"
    and cnt: "referenceCharCount st' = 35"
    and ta: "textAreas st' = (textAreas mounted_multi)[nat 1 := remeasured mounted_multi
               (new_field (aiueo @ kakikukeko @ aiueo @ kakikukeko @ aiueo @ kakikukeko @ aiueo)) 560]"
    by (auto simp: h3 c tx second_field_lines second_field_width sample_layout)
  have "at_index (textAreas st') 1 = Some (remeasured mounted_multi
               (new_field (aiueo @ kakikukeko @ aiueo @ kakikukeko @ aiueo @ kakikukeko @ aiueo)) 560)"
    using at_index_update [OF h2] ta by simp
  moreover have "theoreticalReferenceWidth st' = 560"
    by (simp add: theoreticalReferenceWidth_def EM_TO_PX_def cnt)
  moreover have "\<not> exceedsReference (remeasured mounted_multi
               (new_field (aiueo @ kakikukeko @ aiueo @ kakikukeko @ aiueo @ kakikukeko @ aiueo)) 560)"
    by (simp add: remeasured_def EM_TO_PX_def c)
  ultimately show ?thesis using pass by (simp add: width_remeasured)
qed

lemma single_handler_at_2_30:
  "handleReferenceCharCountChange_single sample_host
     (mounted_single\<lparr>referenceCharCount := 2 ^ 30\<rparr>)
   = ([RangeError], mounted_single\<lparr>referenceCharCount := 2 ^ 30\<rparr>)"
proof -
  have a: "real (string_limit sample_host) + 1
             \<le> referenceCharCount (mounted_single\<lparr>referenceCharCount := 2 ^ 30\<rparr>)"
    by (simp add: sample_host_def)
  have b: "referenceMeasurementRef (mounted_single\<lparr>referenceCharCount := 2 ^ 30\<rparr>)
             = Some empty_span"
    by (simp add: mounted_single_def)
  from a b show ?thesis by (rule single_handler_beyond_limit)
qed

lemma multi_pass_at_2_30:
  "measureWidth_multi sample_host 0 (mounted_multi\<lparr>referenceCharCount := 2 ^ 30\<rparr>)
   = Inl RangeError"
proof -
  have a: "real (string_limit sample_host) + 1
             \<le> referenceCharCount (mounted_multi\<lparr>referenceCharCount := 2 ^ 30\<rparr>)"
    by (simp add: sample_host_def)
  have b: "referenceMeasurementRef (mounted_multi\<lparr>referenceCharCount := 2 ^ 30\<rparr>)
             = Some empty_span"
    by (simp add: mounted_multi_def)
  from a b show ?thesis by (rule measureWidth_multi_beyond_limit)
qed

lemma rejected_multi:
  "onMounted_multi host FontRejected st
     = ([], st\<lparr>dom_log := dom_log st @ [ConsoleError], fontLoaded := True\<rparr>)"
  by (simp add: onMounted_multi_def)

lemma ready_multi_widths:
  "map width (textAreas (snd (onMounted_multi sample_host FontReady mounted_multi)))
     = [240, 560, 560]"
  by (simp add: onMounted_multi_def measure_all_def measureWidth_multi_def measureReference_def
        referenceText_def repeat_def mounted_multi_def at_index_def measurementRef_at_def
        new_field_def empty_span_def Let_def aiueo_def kakikukeko_def digits_def
        sample_host_def sample_render_def in_class_def theoreticalReferenceWidth_def
        EM_TO_PX_def upt_conv_Cons)

lemma rejected_single:
  "\<not> isl (onMounted_single sample_host FontRejected mounted_single)
   \<and> fontLoaded (projr (onMounted_single sample_host FontRejected mounted_single))
   \<and> inputWidth (projr (onMounted_single sample_host FontRejected mounted_single)) = 560"
  by (simp add: onMounted_single_def measureWidth_single_def measureReference_def
        referenceText_def repeat_def mounted_single_def
        empty_span_def Let_def aiueo_def kakikukeko_def digits_def
        sample_host_def sample_render_def in_class_def)

section \<open>Claims\<close>

text \<open>
  C4. The classifier iterates the string by code point and counts a code point as
  full-width exactly when its number lies in U+3040..U+309F, U+30A0..U+30FF or
  U+4E00..U+9FFF, and as half-width otherwise. So a string made only of characters of the
  three ranges gives \<open>fullWidth = length\<close> and \<open>halfWidth = 0\<close>, an ASCII-only
  string gives \<open>fullWidth = 0\<close> and \<open>halfWidth = length\<close>, and the empty string gives
  0 and 0. The iteration is by code point, not by code unit: a lead surrogate and the
  trail surrogate after it are one code point, of a number from U+10000 on, and count
  once, as half-width; a code unit that is not a lead surrogate is a code point by
  itself, of its own number.
\<close>

theorem countCharacters_by_code_point:
  "(\<forall>ch \<in> set (code_points s).
       regex_test ch = full_width_code_point (code_point_value ch))
   \<and> countCharacters s =
       \<lparr>fullWidth = length (filter (\<lambda>ch. full_width_code_point (code_point_value ch))
                                  (code_points s)),
        halfWidth = length (filter (\<lambda>ch. \<not> full_width_code_point (code_point_value ch))
                                  (code_points s))\<rparr>
   \<and> (list_all (\<lambda>c. full_width_code_point (unat c)) j
        \<longrightarrow> countCharacters j = \<lparr>fullWidth = length j, halfWidth = 0\<rparr>)
   \<and> (list_all is_ascii a
        \<longrightarrow> countCharacters a = \<lparr>fullWidth = 0, halfWidth = length a\<rparr>)
   \<and> countCharacters [] = \<lparr>fullWidth = 0, halfWidth = 0\<rparr>
   \<and> (is_lead_surrogate c \<and> is_trail_surrogate d \<longrightarrow>
        code_points (c # d # r) = [c, d] # code_points r
        \<and> 0x10000 \<le> code_point_value [c, d]
        \<and> countCharacters (c # d # r)
            = (countCharacters r)\<lparr>halfWidth := halfWidth (countCharacters r) + 1\<rparr>)
   \<and> (\<not> is_lead_surrogate u \<longrightarrow>
        code_points (u # r) = [u] # code_points r \<and> code_point_value [u] = unat u)"
  using classification_counts [of s j a]
  by (simp add: pair_is_one_code_point unit_is_one_code_point)

theorem countCharacters_by_code_point_witness:
  "list_all (\<lambda>c. full_width_code_point (unat c)) [0x3042, 0x30AB, 0x6F22 :: code_unit]
   \<and> countCharacters [0x3042, 0x30AB, 0x6F22] = \<lparr>fullWidth = 3, halfWidth = 0\<rparr>
   \<and> list_all is_ascii [0x41, 0x31, 0x20, 0x7E :: code_unit]
   \<and> countCharacters [0x41, 0x31, 0x20, 0x7E] = \<lparr>fullWidth = 0, halfWidth = 4\<rparr>
   \<and> regex_test [0x3042] = full_width_code_point (code_point_value [0x3042])
   \<and> is_lead_surrogate 0xD83D \<and> is_trail_surrogate 0xDE00
   \<and> code_points [0xD83D, 0xDE00, 0x3042] = [[0xD83D, 0xDE00], [0x3042]]
   \<and> code_point_value [0xD83D, 0xDE00] = 0x1F600
   \<and> countCharacters [0xD83D, 0xDE00, 0x3042] = \<lparr>fullWidth = 1, halfWidth = 1\<rparr>
   \<and> \<not> is_lead_surrogate 0x3042
   \<and> code_points [0x3042, 0xD83D, 0xDE00] = [[0x3042], [0xD83D, 0xDE00]]"
proof -
  have p: "is_lead_surrogate 0xD83D \<and> is_trail_surrogate 0xDE00"
    by (simp add: is_lead_surrogate_def is_trail_surrogate_def)
  have q: "\<not> is_lead_surrogate 0x3042" by (simp add: is_lead_surrogate_def)
  have one: "countCharacters [0x3042] = \<lparr>fullWidth = 1, halfWidth = 0\<rparr>"
    by (simp add: countCharacters_def regex_test_def in_class_def)
  have tail: "code_points [0xD83D, 0xDE00] = [[0xD83D, 0xDE00]]"
    using p by simp
  from countCharacters_by_code_point
          [where s = "[0x3042]" and j = "[0x3042, 0x30AB, 0x6F22]"
             and a = "[0x41, 0x31, 0x20, 0x7E]" and c = "0xD83D" and d = "0xDE00"
             and r = "[0x3042]" and u = "0x3042"]
       countCharacters_by_code_point
          [where s = "[]" and j = "[]" and a = "[]" and c = "0xD83D" and d = "0xDE00"
             and r = "[0xD83D, 0xDE00]" and u = "0x3042"]
       p q one tail
  show ?thesis by (simp add: full_width_code_point_def is_ascii_def)
qed

text \<open>
  C9. Every iterated code point is counted exactly once: the two counts add up to the
  number of code points, which is at most the number of UTF-16 code units. A surrogate
  pair is one code point and adds exactly 1 to \<open>halfWidth\<close>; the emoji U+1F600 (two code
  units) gives \<open>fullWidth = 0\<close>, \<open>halfWidth = 1\<close>.
\<close>

theorem countCharacters_total:
  "fullWidth (countCharacters s) + halfWidth (countCharacters s) = length (code_points s)
   \<and> length (code_points s) \<le> length s
   \<and> (is_lead_surrogate c \<and> is_trail_surrogate d \<longrightarrow>
        code_points (c # d # s) = [c, d] # code_points s
        \<and> countCharacters (c # d # s)
            = (countCharacters s)\<lparr>halfWidth := halfWidth (countCharacters s) + 1\<rparr>)
   \<and> countCharacters [0xD83D, 0xDE00] = \<lparr>fullWidth = 0, halfWidth = 1\<rparr>
   \<and> code_point_value [0xD83D, 0xDE00] = 0x1F600
   \<and> length [0xD83D, 0xDE00 :: code_unit] = 2"
proof (intro conjI impI)
  show "fullWidth (countCharacters s) + halfWidth (countCharacters s) = length (code_points s)"
    using sum_length_filter_compl [of regex_test "code_points s"]
    by (simp add: countCharacters_def count_loop_filter)
next
  show "length (code_points s) \<le> length s" by (rule length_code_points_le)
next
  assume "is_lead_surrogate c \<and> is_trail_surrogate d"
  then show "code_points (c # d # s) = [c, d] # code_points s" by simp
next
  assume p: "is_lead_surrogate c \<and> is_trail_surrogate d"
  then have "\<not> regex_test [c, d]"
    by (simp add: regex_test_def lead_not_in_class trail_not_in_class)
  with p show "countCharacters (c # d # s)
            = (countCharacters s)\<lparr>halfWidth := halfWidth (countCharacters s) + 1\<rparr>"
    by (simp add: countCharacters_def count_loop_filter)
next
  show "countCharacters [0xD83D, 0xDE00] = \<lparr>fullWidth = 0, halfWidth = 1\<rparr>"
    by (simp add: countCharacters_def regex_test_def in_class_def
                  is_lead_surrogate_def is_trail_surrogate_def)
next
  show "code_point_value [0xD83D, 0xDE00] = 0x1F600" by simp
next
  show "length [0xD83D, 0xDE00 :: code_unit] = 2" by simp
qed

theorem countCharacters_total_witness:
  "is_lead_surrogate 0xD83D \<and> is_trail_surrogate 0xDE00
   \<and> countCharacters [0xD83D, 0xDE00, 0x3042, 0x41] = \<lparr>fullWidth = 1, halfWidth = 2\<rparr>
   \<and> length (code_points [0xD83D, 0xDE00, 0x3042, 0x41]) = 3"
  using countCharacters_total [of "[0x3042, 0x41]" "0xD83D" "0xDE00"]
  by (simp add: countCharacters_def regex_test_def in_class_def
                is_lead_surrogate_def is_trail_surrogate_def)



text \<open>
  C7. The reference-count handler of either view replaces a count below 1 (zero,
  negative, or a fraction below 1) by 1 before it measures, and leaves any other count as
  it is, however large: it enforces no upper bound. After the handler the count is at
  least 1, and for a clamped value the theoretical width is 16. The handler itself never
  throws; no pass that it starts rejects as long as the count it leaves is within the
  host's string limit, as the clamped value 1 is.
\<close>

theorem handleReferenceCharCountChange_clamps:
  "(\<exists>errs st'. handleReferenceCharCountChange_single host st = (errs, st')
       \<and> referenceCharCount st' = (if referenceCharCount st < 1 then 1 else referenceCharCount st)
       \<and> 1 \<le> referenceCharCount st'
       \<and> (referenceCharCount st < 1 \<longrightarrow> theoreticalReferenceWidth st' = 16)
       \<and> (referenceCharCount st' \<le> real (string_limit host) \<longrightarrow> errs = []))
   \<and> (\<exists>errs mst'. handleReferenceCharCountChange_multi host mst = (errs, mst')
       \<and> referenceCharCount mst' = (if referenceCharCount mst < 1 then 1 else referenceCharCount mst)
       \<and> 1 \<le> referenceCharCount mst'
       \<and> (referenceCharCount mst < 1 \<longrightarrow> theoreticalReferenceWidth mst' = 16)
       \<and> (referenceCharCount mst' \<le> real (string_limit host) \<longrightarrow> errs = []))"
proof
  from single_handler_effect [of host st]
  obtain errs st' where run: "handleReferenceCharCountChange_single host st = (errs, st')"
    and cnt: "referenceCharCount st' = referenceCharCount (clampReferenceCharCount st)"
    and ok: "count_in_range host (clampReferenceCharCount st) \<longrightarrow> errs = []"
    by blast
  have c: "referenceCharCount st' = (if referenceCharCount st < 1 then 1 else referenceCharCount st)"
    using cnt by (simp add: clampReferenceCharCount_def)
  have "referenceCharCount st' \<le> real (string_limit host) \<longrightarrow> errs = []"
    using ok cnt c by (auto simp: count_in_range_def split: if_splits)
  with run c show "\<exists>errs st'. handleReferenceCharCountChange_single host st = (errs, st')
       \<and> referenceCharCount st' = (if referenceCharCount st < 1 then 1 else referenceCharCount st)
       \<and> 1 \<le> referenceCharCount st'
       \<and> (referenceCharCount st < 1 \<longrightarrow> theoreticalReferenceWidth st' = 16)
       \<and> (referenceCharCount st' \<le> real (string_limit host) \<longrightarrow> errs = [])"
    by (auto simp: theoreticalReferenceWidth_def EM_TO_PX_def)
next
  from multi_handler_effect [of host mst]
  obtain errs mst' where run: "handleReferenceCharCountChange_multi host mst = (errs, mst')"
    and cnt: "referenceCharCount mst' = referenceCharCount (clampReferenceCharCount mst)"
    and ok: "count_in_range host (clampReferenceCharCount mst) \<longrightarrow> errs = []"
    by blast
  have c: "referenceCharCount mst' = (if referenceCharCount mst < 1 then 1 else referenceCharCount mst)"
    using cnt by (simp add: clampReferenceCharCount_def)
  have "referenceCharCount mst' \<le> real (string_limit host) \<longrightarrow> errs = []"
    using ok cnt c by (auto simp: count_in_range_def split: if_splits)
  with run c show "\<exists>errs mst'. handleReferenceCharCountChange_multi host mst = (errs, mst')
       \<and> referenceCharCount mst' = (if referenceCharCount mst < 1 then 1 else referenceCharCount mst)
       \<and> 1 \<le> referenceCharCount mst'
       \<and> (referenceCharCount mst < 1 \<longrightarrow> theoreticalReferenceWidth mst' = 16)
       \<and> (referenceCharCount mst' \<le> real (string_limit host) \<longrightarrow> errs = [])"
    by (auto simp: theoreticalReferenceWidth_def EM_TO_PX_def)
qed

theorem handleReferenceCharCountChange_clamps_witness:
  "referenceCharCount (mounted_single\<lparr>referenceCharCount := 0\<rparr>) < 1
   \<and> referenceCharCount (mounted_multi\<lparr>referenceCharCount := - 3\<rparr>) < 1
   \<and> (1::real) \<le> real (string_limit sample_host)
   \<and> (\<exists>st'. handleReferenceCharCountChange_single sample_host
                (mounted_single\<lparr>referenceCharCount := 0\<rparr>) = ([], st')
          \<and> referenceCharCount st' = 1 \<and> theoreticalReferenceWidth st' = 16)
   \<and> (\<exists>mst'. handleReferenceCharCountChange_multi sample_host
                (mounted_multi\<lparr>referenceCharCount := - 3\<rparr>) = ([], mst')
          \<and> referenceCharCount mst' = 1 \<and> theoreticalReferenceWidth mst' = 16)"
proof -
  have l: "(1::real) \<le> real (string_limit sample_host)" by (simp add: sample_host_def)
  from handleReferenceCharCountChange_clamps
          [of sample_host "mounted_single\<lparr>referenceCharCount := 0\<rparr>"
              "mounted_multi\<lparr>referenceCharCount := - 3\<rparr>"] l
  show ?thesis by auto
qed



text \<open>
  C10. In the multi-field view, a pass for an index that has no field (3 or more, or
  negative) does what the reference block does and returns: the fields and the field
  spans are as before, the only spans operated on are the reference span, and the pass
  returns whenever the reference count is not negative and within the host's string
  limit. \<open>inputCharCount\<close> is 0 for
  such an index.
\<close>

theorem measureWidth_multi_missing_field:
  assumes "at_index (textAreas st) i = None"
  shows "inputCharCount st i = 0
     \<and> measureWidth_multi host i st = measureReference host st
     \<and> (\<forall>st'. measureWidth_multi host i st = Inr st' \<longrightarrow>
           textAreas st' = textAreas st \<and> measurementRefs st' = measurementRefs st
           \<and> (\<exists>evs. dom_log st' = dom_log st @ evs
                  \<and> filter (\<lambda>e. \<not> touches ReferenceSpan e) evs = []))
     \<and> (count_in_range host st \<longrightarrow> (\<exists>st'. measureWidth_multi host i st = Inr st'))"
proof (intro conjI allI impI)
  show "inputCharCount st i = 0" using assms by (simp add: inputCharCount_def)
next
  show eq: "measureWidth_multi host i st = measureReference host st"
    using assms by (rule measureWidth_multi_missing)
next
  fix st' assume "measureWidth_multi host i st = Inr st'"
  then have r: "measureReference host st = Inr st'"
    using assms by (simp add: measureWidth_multi_missing)
  then show "textAreas st' = textAreas st"
    by (auto simp: measureReference_def Let_def split: option.splits sum.splits)
  from r show "measurementRefs st' = measurementRefs st"
    by (auto simp: measureReference_def Let_def split: option.splits sum.splits)
  from r show "\<exists>evs. dom_log st' = dom_log st @ evs
                  \<and> filter (\<lambda>e. \<not> touches ReferenceSpan e) evs = []"
    by (auto simp: measureReference_def Let_def split: option.splits sum.splits)
next
  assume c: "count_in_range host st"
  from measureReference_Inr [OF c]
  show "\<exists>st'. measureWidth_multi host i st = Inr st'"
    using assms by (auto simp: measureWidth_multi_missing)
qed

theorem measureWidth_multi_missing_field_witness:
  "at_index (textAreas mounted_multi) 3 = None
   \<and> at_index (textAreas mounted_multi) (- 1) = None
   \<and> inputCharCount mounted_multi 3 = 0
   \<and> inputCharCount mounted_multi (- 1) = 0
   \<and> measureWidth_multi sample_host 3 mounted_multi = measureReference sample_host mounted_multi
   \<and> (\<exists>st'. measureWidth_multi sample_host 3 mounted_multi = Inr st')"
proof -
  have a: "at_index (textAreas mounted_multi) 3 = None"
    by (simp add: at_index_def mounted_multi_def)
  have b: "at_index (textAreas mounted_multi) (- 1) = None"
    by (simp add: at_index_def mounted_multi_def)
  have c: "count_in_range sample_host mounted_multi" by (rule in_range_mounted_multi)
  note p = measureWidth_multi_missing_field [OF a, of sample_host]
  note q = measureWidth_multi_missing_field [OF b, of sample_host]
  from p c have "\<exists>st'. measureWidth_multi sample_host 3 mounted_multi = Inr st'"
    by blast
  with p q a b show ?thesis by blast

qed

text \<open>
  C5. The width measurer splits the text at line feeds and stores the largest of the
  widths that the lines render at, as the layout engine reports them (no rounding); a
  text whose lines render at 40, 120 and 75 gives 120. This holds in the single-field view
  (for a text that is not empty, with its span mounted) and in the multi-field view (for
  an existing field with its span mounted); rendered widths are not negative, and the
  reference count is not negative and within the host's string limit, so that the pass
  gets past its reference block.
\<close>

theorem measureWidth_widest_line:
  assumes "count_in_range host st" and "measurementRef st = Some el"
    and "inputText st \<noteq> []"
    and "\<forall>l \<in> set (split_newline (inputText st)). 0 \<le> layout host l"
    and "count_in_range host mst" and "at_index (textAreas mst) i = Some t"
    and "measurementRef_at mst i = Some mel"
    and "\<forall>l \<in> set (split_newline (text' t)). 0 \<le> layout host l"
  shows "(\<exists>st'. measureWidth_single host st = Inr st'
            \<and> inputWidth st' = Max (layout host ` set (split_newline (inputText st))))
       \<and> (\<exists>mst' t'. measureWidth_multi host i mst = Inr mst'
            \<and> at_index (textAreas mst') i = Some t'
            \<and> width t' = Max (layout host ` set (split_newline (text' t))))"
proof
  from measureWidth_single_lines [OF assms(3) assms(1) assms(2)]
  obtain st' where "measureWidth_single host st = Inr st'"
    and "inputWidth st' = Max (insert 0 (layout host ` set (split_newline (inputText st))))"
    by blast
  moreover have "Max (insert 0 (layout host ` set (split_newline (inputText st))))
                  = Max (layout host ` set (split_newline (inputText st)))"
    using split_newline_nonempty assms(4) by (rule Max_insert_zero)
  ultimately show "\<exists>st'. measureWidth_single host st = Inr st'
            \<and> inputWidth st' = Max (layout host ` set (split_newline (inputText st)))"
    by simp
next
  from measureWidth_multi_field [OF assms(5) assms(6)]
  obtain mst' where pass: "measureWidth_multi host i mst = Inr mst'"
    and ta: "textAreas mst' = (textAreas mst)[nat i := remeasured mst t
                 (Max (insert 0 (layout host ` set (split_newline (text' t)))))]"
    using assms(7) by auto
  have "Max (insert 0 (layout host ` set (split_newline (text' t))))
          = Max (layout host ` set (split_newline (text' t)))"
    using split_newline_nonempty assms(8) by (rule Max_insert_zero)
  with ta have "at_index (textAreas mst') i
                  = Some (remeasured mst t (Max (layout host ` set (split_newline (text' t)))))"
    using at_index_update [OF assms(6)] by simp
  with pass show "\<exists>mst' t'. measureWidth_multi host i mst = Inr mst'
            \<and> at_index (textAreas mst') i = Some t'
            \<and> width t' = Max (layout host ` set (split_newline (text' t)))"
    by (simp add: width_remeasured)
qed

theorem measureWidth_widest_line_witness:
  "count_in_range example_host example_single
   \<and> measurementRef example_single = Some empty_span
   \<and> inputText example_single \<noteq> []
   \<and> list_all (\<lambda>l. 0 \<le> example_render l) (split_newline (inputText example_single))
   \<and> map example_render (split_newline (inputText example_single)) = [40, 120, 75]
   \<and> count_in_range example_host example_multi
   \<and> at_index (textAreas example_multi) 0 = Some (new_field example_text)
   \<and> measurementRef_at example_multi 0 = Some empty_span
   \<and> (\<exists>st'. measureWidth_single example_host example_single = Inr st'
          \<and> inputWidth st' = 120)
   \<and> (\<exists>mst' t'. measureWidth_multi example_host 0 example_multi = Inr mst'
          \<and> at_index (textAreas mst') 0 = Some t' \<and> width t' = 120)"
proof -
  have h1: "count_in_range example_host example_single"
    by (rule in_range_example_single)
  have h2: "measurementRef example_single = Some empty_span"
    by (simp add: example_single_def mounted_single_def)
  have it: "inputText example_single = example_text"
    by (simp add: example_single_def)
  have h3: "inputText example_single \<noteq> []"
    by (simp add: it example_text_def)
  have h4: "\<forall>l \<in> set (split_newline (inputText example_single)).
              0 \<le> layout example_host l"
    by (simp add: it example_lines example_layout example_render_def)
  have ws: "map example_render (split_newline (inputText example_single)) = [40, 120, 75]"
    by (simp add: it example_lines example_render_def)
  have h5: "count_in_range example_host example_multi"
    by (rule in_range_example_multi)
  have h6: "at_index (textAreas example_multi) 0 = Some (new_field example_text)"
    by (simp add: example_multi_def at_index_def)
  have h7: "measurementRef_at example_multi 0 = Some empty_span"
    by (simp add: example_multi_def mounted_multi_def measurementRef_at_def at_index_def)
  have tx: "text' (new_field example_text) = example_text"
    by (simp add: new_field_def)
  have h8: "\<forall>l \<in> set (split_newline (text' (new_field example_text))).
              0 \<le> layout example_host l"
    by (simp add: tx example_lines example_layout example_render_def)
  have mx: "Max (example_render ` set (split_newline example_text)) = 120"
    by (simp add: example_lines example_render_def)
  from measureWidth_widest_line [OF h1 h2 h3 h4 h5 h6 h7 h8]
  have "(\<exists>st'. measureWidth_single example_host example_single = Inr st'
          \<and> inputWidth st' = 120)
   \<and> (\<exists>mst' t'. measureWidth_multi example_host 0 example_multi = Inr mst'
          \<and> at_index (textAreas mst') 0 = Some t' \<and> width t' = 120)"
    by (simp add: it tx mx example_layout)
  moreover have "list_all (\<lambda>l. 0 \<le> example_render l) (split_newline (inputText example_single))"
    using h4 by (simp add: list_all_iff example_layout)
  ultimately show ?thesis using h1 h2 h3 ws h5 h6 h7 by blast
qed

text \<open>
  C2, as the code has it, for a reference count that is not negative and within the
  host's string limit (so that the pass gets past its reference block). In the
  single-field view a pass over an empty input text
  stores the width 0 and performs no operation on the input's span. In the multi-field
  view a pass over a field whose text is empty splits it into one empty line; when the
  field's span is mounted, the pass writes that line into the span and reads its width
  once, and stores that width when it is positive and 0 otherwise (so 0 whenever empty
  content renders at width 0); when the span is missing it stores 0 and performs no
  operation on it.
\<close>

theorem measureWidth_empty_text:
  assumes "inputText st = []" and "count_in_range host st"
    and "count_in_range host mst" and "at_index (textAreas mst) i = Some t"
    and "text' t = []"
  shows "(\<exists>st' evs. measureWidth_single host st = Inr st' \<and> inputWidth st' = 0
            \<and> measurementRef st' = measurementRef st
            \<and> dom_log st' = dom_log st @ evs \<and> filter (touches InputSpan) evs = [])
       \<and> (\<exists>mst' t' evs. measureWidth_multi host i mst = Inr mst'
            \<and> at_index (textAreas mst') i = Some t'
            \<and> dom_log mst' = dom_log mst @ evs
            \<and> (case measurementRef_at mst i of
                  None \<Rightarrow> width t' = 0 \<and> filter (touches (FieldSpan (nat i))) evs = []
                | Some el \<Rightarrow>
                    width t' = max 0 (layout host [])
                    \<and> filter (touches (FieldSpan (nat i))) evs
                        = [SetTextContent (FieldSpan (nat i)) [], GetWidth (FieldSpan (nat i))]))"
proof
  show "\<exists>st' evs. measureWidth_single host st = Inr st' \<and> inputWidth st' = 0
            \<and> measurementRef st' = measurementRef st
            \<and> dom_log st' = dom_log st @ evs \<and> filter (touches InputSpan) evs = []"
    using assms(1,2) by (rule measureWidth_single_empty)
next
  from measureWidth_multi_field [OF assms(3) assms(4)]
  obtain mst' evs where pass: "measureWidth_multi host i mst = Inr mst'"
    and lg: "dom_log mst' = dom_log mst @ evs"
    and ev: "filter (touches (FieldSpan (nat i))) evs =
               (case measurementRef_at mst i of
                  None \<Rightarrow> []
                | Some el \<Rightarrow> concat (map (\<lambda>l. [SetTextContent (FieldSpan (nat i)) l,
                                                  GetWidth (FieldSpan (nat i))])
                                         (split_newline (text' t))))"
    and ta: "textAreas mst' = (textAreas mst)[nat i := remeasured mst t
                 (case measurementRef_at mst i of
                    None \<Rightarrow> 0
                  | Some el \<Rightarrow> Max (insert 0 (layout host ` set (split_newline (text' t)))))]"
    by blast
  let ?t' = "remeasured mst t
                 (case measurementRef_at mst i of
                    None \<Rightarrow> 0
                  | Some el \<Rightarrow> Max (insert 0 (layout host ` set (split_newline (text' t)))))"
  have at: "at_index (textAreas mst') i = Some ?t'"
    using at_index_update [OF assms(4)] ta by simp
  have "case measurementRef_at mst i of
                  None \<Rightarrow> width ?t' = 0 \<and> filter (touches (FieldSpan (nat i))) evs = []
                | Some el \<Rightarrow>
                    width ?t' = max 0 (layout host [])
                    \<and> filter (touches (FieldSpan (nat i))) evs
                        = [SetTextContent (FieldSpan (nat i)) [], GetWidth (FieldSpan (nat i))]"
    using ev assms(5) by (simp add: width_remeasured max_def split: option.splits)
  with pass lg at show "\<exists>mst' t' evs. measureWidth_multi host i mst = Inr mst'
            \<and> at_index (textAreas mst') i = Some t'
            \<and> dom_log mst' = dom_log mst @ evs
            \<and> (case measurementRef_at mst i of
                  None \<Rightarrow> width t' = 0 \<and> filter (touches (FieldSpan (nat i))) evs = []
                | Some el \<Rightarrow>
                    width t' = max 0 (layout host [])
                    \<and> filter (touches (FieldSpan (nat i))) evs
                        = [SetTextContent (FieldSpan (nat i)) [], GetWidth (FieldSpan (nat i))])"
    by blast
qed

theorem measureWidth_empty_text_witness:
  "inputText emptied_single = [] \<and> count_in_range sample_host emptied_single
   \<and> count_in_range sample_host cleared_multi
   \<and> at_index (textAreas cleared_multi) 0 = Some (new_field [])
   \<and> text' (new_field []) = []
   \<and> measurementRef_at cleared_multi 0 = Some empty_span
   \<and> (\<exists>st' evs. measureWidth_single sample_host emptied_single = Inr st'
          \<and> inputWidth st' = 0
          \<and> dom_log st' = dom_log emptied_single @ evs \<and> filter (touches InputSpan) evs = [])
   \<and> (\<exists>mst' t' evs. measureWidth_multi sample_host 0 cleared_multi = Inr mst'
          \<and> at_index (textAreas mst') 0 = Some t' \<and> width t' = 0
          \<and> dom_log mst' = dom_log cleared_multi @ evs
          \<and> filter (touches (FieldSpan 0)) evs
               = [SetTextContent (FieldSpan 0) [], GetWidth (FieldSpan 0)])"
proof -
  have h1: "inputText emptied_single = []" by (simp add: emptied_single_def)
  have h2: "count_in_range sample_host emptied_single"
    by (rule in_range_emptied_single)
  have h3: "count_in_range sample_host cleared_multi"
    by (rule in_range_cleared_multi)
  have h4: "at_index (textAreas cleared_multi) 0 = Some (new_field [])"
    by (simp add: cleared_multi_def mounted_multi_def at_index_def)
  have h5: "text' (new_field []) = []" by (simp add: new_field_def)
  have h6: "measurementRef_at cleared_multi 0 = Some empty_span"
    by (simp add: cleared_multi_def mounted_multi_def measurementRef_at_def at_index_def)
  have r: "layout sample_host [] = 0" by (simp add: sample_host_def sample_render_def)
  from measureWidth_empty_text [OF h1 h2 h3 h4 h5]
  have "(\<exists>st' evs. measureWidth_single sample_host emptied_single = Inr st'
          \<and> inputWidth st' = 0
          \<and> dom_log st' = dom_log emptied_single @ evs \<and> filter (touches InputSpan) evs = [])
   \<and> (\<exists>mst' t' evs. measureWidth_multi sample_host 0 cleared_multi = Inr mst'
          \<and> at_index (textAreas mst') 0 = Some t' \<and> width t' = 0
          \<and> dom_log mst' = dom_log cleared_multi @ evs
          \<and> filter (touches (FieldSpan 0)) evs
               = [SetTextContent (FieldSpan 0) [], GetWidth (FieldSpan 0)])"
    by (simp add: h6 r) blast
  with h1 h2 h3 h4 h5 h6 show ?thesis by blast
qed

text \<open>
  C2 as it was stated fails in the multi-field view: with the first field
  emptied, a pass writes to that field's span and reads its width.
\<close>

theorem measureWidth_multi_empty_counterexample:
  "text' (textAreas cleared_multi ! 0) = []
   \<and> \<not> isl (measureWidth_multi sample_host 0 cleared_multi)
   \<and> filter (touches (FieldSpan 0))
        (dom_log (projr (measureWidth_multi sample_host 0 cleared_multi)))
      = [SetTextContent (FieldSpan 0) [], GetWidth (FieldSpan 0)]"
  by (simp add: measureWidth_multi_def measureReference_def referenceText_def repeat_def
                cleared_multi_def mounted_multi_def at_index_def measurementRef_at_def
                new_field_def empty_span_def sample_host_def Let_def)

text \<open>
  C3. In the multi-field view, a measurement pass for a field leaves that field's
  \<open>exceedsReference\<close> flag true exactly when its measured width is strictly greater than
  the theoretical reference width, 16 times the reference count; equal widths give false.
  A pass keeps the flags of the other fields in agreement when they were, and after the
  reference-count handler the flag of every field agrees. All this for a reference count
  within the host's string limit: beyond it the reference text cannot be built and the
  pass rejects before it reaches the field.
\<close>

theorem exceedsReference_strict:
  assumes "count_in_range host st" and "at_index (textAreas st) i = Some t"
    and "count_in_range host (clampReferenceCharCount st0)"
  shows "(\<exists>st' t'. measureWidth_multi host i st = Inr st'
            \<and> at_index (textAreas st') i = Some t'
            \<and> theoreticalReferenceWidth st' = 16 * referenceCharCount st'
            \<and> referenceCharCount st' = referenceCharCount st
            \<and> exceedsReference t' = (width t' > theoreticalReferenceWidth st')
            \<and> (width t' = theoreticalReferenceWidth st' \<longrightarrow> \<not> exceedsReference t')
            \<and> (list_all (flag_agrees st) (textAreas st)
                 \<longrightarrow> list_all (flag_agrees st') (textAreas st')))
       \<and> (\<exists>st'. handleReferenceCharCountChange_multi host st0 = ([], st')
            \<and> list_all (flag_agrees st') (textAreas st'))"
proof
  from measureWidth_multi_field [OF assms(1,2)]
  obtain st' w where pass: "measureWidth_multi host i st = Inr st'"
    and cnt: "referenceCharCount st' = referenceCharCount st"
    and ta: "textAreas st' = (textAreas st)[nat i := remeasured st t w]"
    by blast
  have at: "at_index (textAreas st') i = Some (remeasured st t w)"
    using at_index_update [OF assms(2)] ta by simp
  have th: "theoreticalReferenceWidth st' = 16 * referenceCharCount st'"
    by (simp add: theoreticalReferenceWidth_def EM_TO_PX_def)
  have fl: "flag_agrees st' (remeasured st t w)"
    by (rule flag_agrees_remeasured [OF cnt])
  have pres: "list_all (flag_agrees st) (textAreas st)
                \<longrightarrow> list_all (flag_agrees st') (textAreas st')"
  proof
    assume "list_all (flag_agrees st) (textAreas st)"
    then have "list_all (flag_agrees st') (textAreas st)"
      by (simp add: list_all_iff flag_agrees_cong [OF cnt])
    then show "list_all (flag_agrees st') (textAreas st')"
      using fl ta by (simp add: list_all_update)
  qed
  from fl have "exceedsReference (remeasured st t w)
                  = (width (remeasured st t w) > theoreticalReferenceWidth st')"
    by (simp add: flag_agrees_def)
  with pass at th cnt pres
  show "\<exists>st' t'. measureWidth_multi host i st = Inr st'
            \<and> at_index (textAreas st') i = Some t'
            \<and> theoreticalReferenceWidth st' = 16 * referenceCharCount st'
            \<and> referenceCharCount st' = referenceCharCount st
            \<and> exceedsReference t' = (width t' > theoreticalReferenceWidth st')
            \<and> (width t' = theoreticalReferenceWidth st' \<longrightarrow> \<not> exceedsReference t')
            \<and> (list_all (flag_agrees st) (textAreas st)
                 \<longrightarrow> list_all (flag_agrees st') (textAreas st'))"
    by (intro exI [of _ st'] exI [of _ "remeasured st t w"]) simp
next
  from measure_all_flags [OF assms(3)]
  show "\<exists>st'. handleReferenceCharCountChange_multi host st0 = ([], st')
            \<and> list_all (flag_agrees st') (textAreas st')"
    by (auto simp: handleReferenceCharCountChange_multi_def)
qed

theorem exceedsReference_strict_witness:
  "count_in_range sample_host mounted_multi
   \<and> count_in_range sample_host (clampReferenceCharCount mounted_multi)
   \<and> at_index (textAreas mounted_multi) 1
        = Some (new_field (aiueo @ kakikukeko @ aiueo @ kakikukeko @ aiueo @ kakikukeko @ aiueo))
   \<and> (\<exists>st' t'. measureWidth_multi sample_host 1 mounted_multi = Inr st'
          \<and> at_index (textAreas st') 1 = Some t'
          \<and> theoreticalReferenceWidth st' = 560
          \<and> exceedsReference t' = (width t' > 560))
   \<and> (\<exists>st' t'. measureWidth_multi sample_host 1 mounted_multi = Inr st'
          \<and> at_index (textAreas st') 1 = Some t'
          \<and> width t' = 560 \<and> theoreticalReferenceWidth st' = 560 \<and> \<not> exceedsReference t')
   \<and> (\<exists>st'. handleReferenceCharCountChange_multi sample_host mounted_multi = ([], st')
          \<and> list_all (flag_agrees st') (textAreas st'))"
proof -
  have h1: "count_in_range sample_host mounted_multi" by (rule in_range_mounted_multi)
  have h2: "at_index (textAreas mounted_multi) 1
        = Some (new_field (aiueo @ kakikukeko @ aiueo @ kakikukeko @ aiueo @ kakikukeko @ aiueo))"
    by (simp add: mounted_multi_def at_index_def)
  have c: "referenceCharCount mounted_multi = 35" by (simp add: mounted_multi_def)
  have "clampReferenceCharCount mounted_multi = mounted_multi"
    by (simp add: clampReferenceCharCount_def c)
  with h1 have h3: "count_in_range sample_host (clampReferenceCharCount mounted_multi)"
    by simp
  from exceedsReference_strict [OF h1 h2 h3]
  have "(\<exists>st' t'. measureWidth_multi sample_host 1 mounted_multi = Inr st'
          \<and> at_index (textAreas st') 1 = Some t'
          \<and> theoreticalReferenceWidth st' = 560
          \<and> exceedsReference t' = (width t' > 560))
   \<and> (\<exists>st'. handleReferenceCharCountChange_multi sample_host mounted_multi = ([], st')
          \<and> list_all (flag_agrees st') (textAreas st'))"
    by (auto simp: c)
  with h1 h2 h3 second_field_equal_width show ?thesis by blast
qed

text \<open>
  C1. When the font-load call rejects, the single-field view sets \<open>fontLoaded\<close> and
  measures; the multi-field view sets \<open>fontLoaded\<close> and reports the error, and measures
  nothing. At the default state, with the sample host: after a rejected load the
  three fields of the multi-field view still have width 0 and no span has been operated
  on, where a successful load measures 240, 560 and 560; the single-field view measures
  560 after a rejected load.
\<close>

theorem onMounted_multi_rejected_skips_measurement:
  "onMounted_multi sample_host FontRejected mounted_multi
     = ([], mounted_multi\<lparr>dom_log := [ConsoleError], fontLoaded := True\<rparr>)
   \<and> map width (textAreas (snd (onMounted_multi sample_host FontRejected mounted_multi)))
       = [0, 0, 0]
   \<and> map width (textAreas (snd (onMounted_multi sample_host FontReady mounted_multi)))
       = [240, 560, 560]
   \<and> \<not> isl (onMounted_single sample_host FontRejected mounted_single)
   \<and> fontLoaded (projr (onMounted_single sample_host FontRejected mounted_single))
   \<and> inputWidth (projr (onMounted_single sample_host FontRejected mounted_single)) = 560"
proof -
  have "dom_log mounted_multi = []" by (simp add: mounted_multi_def)
  then have a: "onMounted_multi sample_host FontRejected mounted_multi
     = ([], mounted_multi\<lparr>dom_log := [ConsoleError], fontLoaded := True\<rparr>)"
    by (simp add: rejected_multi)
  have b: "map width (textAreas (mounted_multi\<lparr>dom_log := [ConsoleError], fontLoaded := True\<rparr>))
             = [0, 0, 0]"
    by (simp add: mounted_multi_def new_field_def)
  from a b ready_multi_widths rejected_single show ?thesis by simp
qed

end
